theory Spec2Isabelle
  imports Complex_Main "HOL-Library.Word"
begin

section \<open>The gorm-to-logrus logging adapter (logger.go)\<close>

text \<open>
  The adapter is one Go file. It wraps a pointer to a logrus logger (the sink) and a copy
  of gorm's \<open>logger.Config\<close>, and implements gorm's logger interface: \<open>LogMode\<close>,
  \<open>Info\<close>, \<open>Warn\<close>, \<open>Error\<close> and \<open>Trace\<close>, with the constructor \<open>New\<close> and the
  options \<open>WithLogger\<close> and \<open>WithConfig\<close>.

  What the model makes explicit:
  \<^item> the sink is outside the repository, so a call on it is recorded in a journal: which
    logger was called, at which level, with which context, fields, format string and
    arguments. The journal holds the calls the sink receives, whatever the sink's own
    level filter prints of them;
  \<^item> a nil sink pointer is \<open>None\<close>; calling a method on it panics, and the outcome of
    an operation says so;
  \<^item> \<open>&Logger{...}\<close> and \<open>&newLogger\<close> allocate in a store of adapter instances, so
    that a copy can be told from an alias;
  \<^item> the trace callback reads and writes state of the caller, which is threaded through;
  \<^item> the clock (\<open>time.Since\<close>) and the source location (\<open>utils.FileWithLineNum\<close>) are
    read from a runtime record.
  Go function values (the options, the trace callback) are total HOL functions: a nil
  function value and a callback that panics or does not return are outside the model.
  \<open>Info\<close>, \<open>Warn\<close>, \<open>Error\<close> and \<open>Trace\<close> only read their receiver, so they take the
  struct the receiver points to; \<open>LogMode\<close> copies through the pointer and takes the
  address.
\<close>

subsection \<open>Go values\<close>

type_synonym int64 = "64 word"

text \<open>\<open>time.Duration\<close> is an \<open>int64\<close> count of nanoseconds; comparisons read it signed.\<close>

type_synonym Duration = "64 word"

text \<open>A \<open>time.Time\<close> and a \<open>context.Context\<close> are opaque to the adapter.\<close>

type_synonym Time = int

type_synonym Context = nat

text \<open>gorm's \<open>logger.LogLevel\<close> is a Go \<open>int\<close>; the adapter only stores it.\<close>

type_synonym LogLevel = int

text \<open>
  Error values. \<open>RecordNotFound\<close> is the object \<open>gorm.ErrRecordNotFound\<close> points to;
  \<open>ErrorString\<close> is any other leaf error (also one with the same text: the sentinel is
  told by identity, not by its message); \<open>WrapError\<close> is an error with an \<open>Unwrap\<close>
  method, as \<open>fmt.Errorf\<close> with \<open>%w\<close> makes. An \<open>error\<close> interface value may be nil.
\<close>

datatype go_error = RecordNotFound | ErrorString string | WrapError string go_error

type_synonym error = "go_error option"

definition ErrRecordNotFound :: error where
  "ErrRecordNotFound = Some RecordNotFound"

text \<open>\<open>errors.Is\<close>: equal to the target, or wrapping an error that is.\<close>

fun errors_is :: "go_error \<Rightarrow> go_error \<Rightarrow> bool" where
  "errors_is RecordNotFound target = (RecordNotFound = target)"
| "errors_is (ErrorString s) target = (ErrorString s = target)"
| "errors_is (WrapError s inner) target = (WrapError s inner = target \<or> errors_is inner target)"

text \<open>
  The \<open>Error()\<close> text: the sentinel's is gorm's; a wrapping error carries its own.
\<close>

fun error_text :: "go_error \<Rightarrow> string" where
  "error_text RecordNotFound = ''record not found''"
| "error_text (ErrorString s) = s"
| "error_text (WrapError s inner) = s"

definition errors_Is :: "error \<Rightarrow> error \<Rightarrow> bool" where
  "errors_Is err target =
    (case err of
       None \<Rightarrow> err = target
     | Some e \<Rightarrow> (case target of None \<Rightarrow> err = target | Some t \<Rightarrow> errors_is e t))"

subsection \<open>Decimal digits and \<open>time.Duration.String\<close>\<close>

text \<open>\<open>byte(digit) + '0'\<close>.\<close>

definition digit_char :: "nat \<Rightarrow> char" where
  "digit_char d = char_of (d + 48)"

text \<open>
  \<open>fmtInt\<close> and \<open>fmtFrac\<close> of Go's \<open>time\<close> package write into the tail of a buffer, from
  the right; here the buffer is the text written so far, and writing prepends to it.
\<close>

function fmtInt_loop :: "string \<Rightarrow> nat \<Rightarrow> string" where
  "fmtInt_loop buf v =
    (if v > 0 then fmtInt_loop (digit_char (v mod 10) # buf) (v div 10) else buf)"
  by pat_completeness auto
termination
  by (relation "measure (\<lambda>(buf, v). v)") auto

definition fmtInt :: "string \<Rightarrow> nat \<Rightarrow> string" where
  "fmtInt buf v = (if v = 0 then CHR ''0'' # buf else fmtInt_loop buf v)"

fun fmtFrac_loop :: "nat \<Rightarrow> string \<Rightarrow> nat \<Rightarrow> bool \<Rightarrow> string \<times> nat \<times> bool" where
  "fmtFrac_loop 0 buf v print = (buf, v, print)"
| "fmtFrac_loop (Suc i) buf v print =
    (let digit = v mod 10;
         print = (print \<or> digit \<noteq> 0);
         buf = (if print then digit_char digit # buf else buf)
     in fmtFrac_loop i buf (v div 10) print)"

definition fmtFrac :: "string \<Rightarrow> nat \<Rightarrow> nat \<Rightarrow> string \<times> nat" where
  "fmtFrac buf v prec =
    (case fmtFrac_loop prec buf v False of
       (buf, v, print) \<Rightarrow> (if print then CHR ''.'' # buf else buf, v))"

definition Microsecond :: nat where
  "Microsecond = 1000"

definition Millisecond :: nat where
  "Millisecond = 1000 * Microsecond"

definition Second :: nat where
  "Second = 1000 * Millisecond"

text \<open>The two bytes of the micro sign in UTF-8, then \<open>s\<close>.\<close>

definition micro_s :: string where
  "micro_s = [CHR 0xC2, CHR 0xB5, CHR ''s'']"

text \<open>
  \<open>Duration.String\<close>: below a second the unit is ns, us (with the micro sign) or ms;
  from a second on, hours, minutes and seconds. Trailing zeros of the fraction are left
  out. The magnitude is taken in \<open>uint64\<close>, so the least duration has one too.
\<close>

definition Duration_String :: "Duration \<Rightarrow> string" where
  "Duration_String d =
    (let neg = (sint d < 0);
         u = unat (if neg then - d else d);
         buf =
           (if u < Second then
              (if u = 0 then ''0s''
               else
                 (case (if u < Microsecond then (0, ''ns'')
                        else if u < Millisecond then (3, micro_s)
                        else (6, ''ms'')) of
                    (prec, unit) \<Rightarrow>
                      (case fmtFrac unit u prec of (buf, u) \<Rightarrow> fmtInt buf u)))
            else
              (case fmtFrac ''s'' u 9 of
                 (buf, u) \<Rightarrow>
                   (let buf = fmtInt buf (u mod 60);
                        u = u div 60
                    in if u > 0 then
                         (let buf = fmtInt (CHR ''m'' # buf) (u mod 60);
                              u = u div 60
                          in if u > 0 then fmtInt (CHR ''h'' # buf) u else buf)
                       else buf)))
     in if neg then CHR ''-'' # buf else buf)"

subsection \<open>The float64 the message carries\<close>

text \<open>
  \<open>Float64 m e\<close> is the number \<open>m * 2 ^ e\<close>. The adapter makes one float:
  \<open>float64(elapsed.Nanoseconds()) / 1e6\<close>. Conversion and division round to the nearest
  value with a 53-bit significand, ties to even. The value lies between \<open>1e-6\<close> and
  \<open>1e13\<close> in magnitude, or is zero, so neither overflow nor subnormal numbers arise and
  the exponent range is left out. How far the result is from the elapsed nanoseconds
  divided by \<open>10 ^ 6\<close> is proved below (\<open>milliseconds_close\<close>).
\<close>

datatype float64 = Float64 int int

text \<open>\<open>a / b\<close> to the nearest natural number, a tie to the even one.\<close>

definition round_half_even :: "nat \<Rightarrow> nat \<Rightarrow> nat" where
  "round_half_even a b =
    (let q = a div b; r = a mod b
     in if 2 * r < b then q
        else if b < 2 * r then q + 1
        else if even q then q else q + 1)"

fun bit_length :: "nat \<Rightarrow> nat" where
  "bit_length n = (if n = 0 then 0 else Suc (bit_length (n div 2)))"

text \<open>
  The float64 nearest to \<open>a / b\<close> (for \<open>b > 0\<close>): with \<open>e\<close> the exponent of the leading
  bit of the quotient, the significand is the quotient in units of \<open>2 ^ (e - 52)\<close>.
\<close>

definition float64_nearest :: "int \<Rightarrow> nat \<Rightarrow> float64" where
  "float64_nearest a b =
    (if a = 0 then Float64 0 0
     else
       (let n = nat \<bar>a\<bar>;
            k = int (bit_length n) - int (bit_length b);
            e = (if b * 2 ^ nat k \<le> n * 2 ^ nat (- k) then k else k - 1);
            s = e - 52;
            m = round_half_even (n * 2 ^ nat (- s)) (b * 2 ^ nat s)
        in Float64 (sgn a * int m) s))"

definition float64_of_int64 :: "int64 \<Rightarrow> float64" where
  "float64_of_int64 n = float64_nearest (sint n) 1"

text \<open>Division of a float by a positive whole constant that is a float itself.\<close>

definition float64_div :: "float64 \<Rightarrow> nat \<Rightarrow> float64" where
  "float64_div x d =
    (case x of Float64 m e \<Rightarrow> float64_nearest (m * 2 ^ nat e) (d * 2 ^ nat (- e)))"

text \<open>
  The verb \<open>%.3f\<close>: the exact value rounded to three decimals, ties to even, with the
  sign of the float (a negative value that rounds to zero prints as \<open>-0.000\<close>).
\<close>

definition FormatFloat_f3 :: "float64 \<Rightarrow> string" where
  "FormatFloat_f3 x =
    (case x of
       Float64 m e \<Rightarrow>
         (let n = round_half_even (nat \<bar>m\<bar> * 1000 * 2 ^ nat e) (2 ^ nat (- e));
              digits = fmtInt [] (n div 1000) @
                [CHR ''.'', digit_char (n div 100 mod 10), digit_char (n div 10 mod 10),
                 digit_char (n mod 10)]
          in if m < 0 then CHR ''-'' # digits else digits))"

text \<open>The verb \<open>%v\<close> on an \<open>int64\<close>: its decimal value.\<close>

definition FormatInt :: "int64 \<Rightarrow> string" where
  "FormatInt i =
    (if sint i < 0 then CHR ''-'' # fmtInt [] (nat (- sint i)) else fmtInt [] (nat (sint i)))"

subsection \<open>Arguments, fields and the fragment of \<open>fmt.Sprintf\<close> the adapter uses\<close>

datatype go_value =
  VString string
  | VInt64 int64
  | VFloat64 float64
  | VDuration Duration
  | VError error

text \<open>
  What the verbs print. \<open>%v\<close> prints a string as it is, an \<open>int64\<close> in decimal, a
  duration and an error through their \<open>String\<close> and \<open>Error\<close> methods, and a nil error
  as \<open><nil>\<close>; \<open>%s\<close> prints a string, a duration and a non-nil error the same way;
  \<open>%.3f\<close> prints a float64. \<open>None\<close> marks what is left out of the model: \<open>%v\<close> on
  a float64 (Go prints the shortest decimal that reads back as the same float, which the
  adapter never asks for), and a verb on an operand it does not fit, where Go prints an
  error marker such as \<open>%!s(int64=3)\<close>.
\<close>

definition fmt_v :: "go_value \<Rightarrow> string option" where
  "fmt_v x =
    (case x of
       VString s \<Rightarrow> Some s
     | VInt64 i \<Rightarrow> Some (FormatInt i)
     | VDuration d \<Rightarrow> Some (Duration_String d)
     | VError None \<Rightarrow> Some ''<nil>''
     | VError (Some e) \<Rightarrow> Some (error_text e)
     | VFloat64 f \<Rightarrow> None)"

definition fmt_s :: "go_value \<Rightarrow> string option" where
  "fmt_s x =
    (case x of
       VString s \<Rightarrow> Some s
     | VDuration d \<Rightarrow> Some (Duration_String d)
     | VError (Some e) \<Rightarrow> Some (error_text e)
     | _ \<Rightarrow> None)"

definition fmt_f3 :: "go_value \<Rightarrow> string option" where
  "fmt_f3 x = (case x of VFloat64 f \<Rightarrow> Some (FormatFloat_f3 f) | _ \<Rightarrow> None)"

text \<open>
  \<open>Sprintf\<close> on the fragment of formats made of plain text, \<open>%%\<close> (a percent sign,
  taking no operand) and the verbs \<open>%v\<close>, \<open>%s\<close> and \<open>%.3f\<close>, each taking the next
  operand. \<open>None\<close> stands for everything outside the fragment: the other verbs, flags,
  widths and precisions of Go's \<open>fmt\<close>, which this model does not cover, and the cases
  where Go prints an error marker (a format ending in \<open>%\<close>, a missing or a spare
  operand, a verb on an operand it does not fit).
\<close>

fun Sprintf :: "string \<Rightarrow> go_value list \<Rightarrow> string option" where
  "Sprintf [] a = (if a = [] then Some [] else None)"
| "Sprintf (c # cs) a =
    (if c \<noteq> CHR ''%'' then map_option ((#) c) (Sprintf cs a)
     else
       (case cs of
          [] \<Rightarrow> None
        | v # rest \<Rightarrow>
            if v = CHR ''%'' then map_option ((#) CHR ''%'') (Sprintf rest a)
            else
              (case a of
                 [] \<Rightarrow> None
               | x # xs \<Rightarrow>
                   if v = CHR ''v'' then
                     (case fmt_v x of
                        None \<Rightarrow> None
                      | Some t \<Rightarrow> map_option ((@) t) (Sprintf rest xs))
                   else if v = CHR ''s'' then
                     (case fmt_s x of
                        None \<Rightarrow> None
                      | Some t \<Rightarrow> map_option ((@) t) (Sprintf rest xs))
                   else if v = CHR ''.'' then
                     (case rest of
                        p # f # rest' \<Rightarrow>
                          if p = CHR ''3'' \<and> f = CHR ''f'' then
                            (case fmt_f3 x of
                               None \<Rightarrow> None
                             | Some t \<Rightarrow> map_option ((@) t) (Sprintf rest' xs))
                          else None
                      | _ \<Rightarrow> None)
                   else None)))"

subsection \<open>The sink\<close>

text \<open>
  A \<open>*logrus.Logger\<close> points to the process-wide standard logger or to another logger
  instance, or is nil (\<open>None\<close>). \<open>logrus.StandardLogger()\<close> returns the former.
\<close>

datatype logrus_Logger = Std | Instance nat

definition StandardLogger :: "logrus_Logger option" where
  "StandardLogger = Some Std"

datatype Level = DebugLevel | InfoLevel | WarnLevel | ErrorLevel

type_synonym Fields = "string \<rightharpoonup> go_value"

text \<open>logrus's key for an error among the fields.\<close>

definition ErrorKey :: string where
  "ErrorKey = ''error''"

record sink_call =
  call_logger :: logrus_Logger
  call_level :: Level
  call_context :: Context
  call_fields :: Fields
  call_format :: string
  call_args :: "go_value list"

datatype panic = NilPointerDereference

subsection \<open>Configuration, options and the adapter\<close>

text \<open>
  Modelled from the spec: gorm's \<open>logger.Config\<close> is declared outside this repository.
  The spec's data model gives it the severity threshold, the slow-query threshold and
  the ignore-record-not-found flag; the adapter reads the last two and writes the first.
\<close>

record Config =
  SlowThreshold :: Duration
  IgnoreRecordNotFoundError :: bool
  LogLevel :: LogLevel

record options =
  log :: "logrus_Logger option"
  cfg :: Config

record Logger =
  log :: "logrus_Logger option"
  cfg :: Config

text \<open>An option is a function on the options under construction (\<open>func(opt *options)\<close>).\<close>

type_synonym Option = "options \<Rightarrow> options"

definition WithLogger :: "logrus_Logger option \<Rightarrow> Option" where
  "WithLogger log' = (\<lambda>opt. opt\<lparr>options.log := log'\<rparr>)"

definition WithConfig :: "Config \<Rightarrow> Option" where
  "WithConfig cfg' = (\<lambda>opt. opt\<lparr>options.cfg := cfg'\<rparr>)"

text \<open>
  The world an operation runs in: the store of adapter instances (an address is an index;
  nothing is ever freed), the calls the sinks have received, oldest first, and the
  caller's state.
\<close>

record 's world =
  loggers :: "Logger list"
  journal :: "sink_call list"
  caller :: 's

text \<open>What the adapter reads from its environment.\<close>

record runtime =
  time_Since :: "Time \<Rightarrow> Duration"
  utils_FileWithLineNum :: string

text \<open>Taking the address of a new adapter value.\<close>

definition alloc :: "Logger \<Rightarrow> 's world \<Rightarrow> nat \<times> 's world" where
  "alloc x w = (length (loggers w), w\<lparr>loggers := loggers w @ [x]\<rparr>)"

text \<open>
  The chain \<open>log.WithContext(ctx).WithFields(fields).Xf(format, args...)\<close>, with \<open>X\<close>
  the level: a nil logger panics at \<open>WithContext\<close>; otherwise the sink receives the call.
  Without \<open>WithFields\<close> the fields are empty.
\<close>

definition logf ::
  "logrus_Logger option \<Rightarrow> Context \<Rightarrow> Fields \<Rightarrow> Level \<Rightarrow> string \<Rightarrow> go_value list \<Rightarrow>
    's world \<Rightarrow> panic option \<times> 's world" where
  "logf lg ctx fds lvl fmt args w =
    (case lg of
       None \<Rightarrow> (Some NilPointerDereference, w)
     | Some s \<Rightarrow>
         (None,
          w\<lparr>journal := journal w @
            [\<lparr>call_logger = s, call_level = lvl, call_context = ctx, call_fields = fds,
              call_format = fmt, call_args = args\<rparr>]\<rparr>))"

text \<open>Calling a function value of the caller's on the caller's state.\<close>

definition invoke :: "('s \<Rightarrow> 'r \<times> 's) \<Rightarrow> 's world \<Rightarrow> 'r \<times> 's world" where
  "invoke f w = (case f (caller w) of (r, s) \<Rightarrow> (r, w\<lparr>caller := s\<rparr>))"

subsection \<open>The operations\<close>

text \<open>
  \<open>LogMode\<close>: \<open>newLogger := *l\<close> copies the struct, the level is set in the copy, and the
  address of the copy is returned.
\<close>

definition LogMode :: "nat \<Rightarrow> LogLevel \<Rightarrow> 's world \<Rightarrow> (panic + nat) \<times> 's world" where
  "LogMode l level w =
    (if l < length (loggers w) then
       (let newLogger = loggers w ! l;
            newLogger = newLogger\<lparr>cfg := (cfg newLogger)\<lparr>LogLevel := level\<rparr>\<rparr>
        in case alloc newLogger w of (p, w') \<Rightarrow> (Inr p, w'))
     else (Inl NilPointerDereference, w))"

definition Info ::
  "Logger \<Rightarrow> Context \<Rightarrow> string \<Rightarrow> go_value list \<Rightarrow> 's world \<Rightarrow> panic option \<times> 's world" where
  "Info l ctx msg data w = logf (log l) ctx Map.empty InfoLevel msg data w"

definition Warn ::
  "Logger \<Rightarrow> Context \<Rightarrow> string \<Rightarrow> go_value list \<Rightarrow> 's world \<Rightarrow> panic option \<times> 's world" where
  "Warn l ctx msg data w = logf (log l) ctx Map.empty WarnLevel msg data w"

definition Error ::
  "Logger \<Rightarrow> Context \<Rightarrow> string \<Rightarrow> go_value list \<Rightarrow> 's world \<Rightarrow> panic option \<times> 's world" where
  "Error l ctx msg data w = logf (log l) ctx Map.empty ErrorLevel msg data w"

text \<open>\<open>float64(elapsed.Nanoseconds()) / 1e6\<close>.\<close>

definition milliseconds :: "Duration \<Rightarrow> float64" where
  "milliseconds elapsed = float64_div (float64_of_int64 elapsed) 1000000"

text \<open>
  \<open>fmt.Sprintf("SLOW SQL >= %v", d)\<close>: the verb prints a duration with its \<open>String\<close>
  method (\<open>Sprintf_slowLog\<close> below checks this against \<open>Sprintf\<close>).
\<close>

definition slowLog_text :: "Duration \<Rightarrow> string" where
  "slowLog_text d = ''SLOW SQL >= '' @ Duration_String d"

text \<open>
  \<open>Trace\<close>: the switch has three cases, taken in order; each calls \<open>fc\<close> first and then
  the sink, with \<open>"-"\<close> in place of the row count when that is \<open>-1\<close>.
\<close>

definition Trace ::
  "runtime \<Rightarrow> Logger \<Rightarrow> Context \<Rightarrow> Time \<Rightarrow> ('s \<Rightarrow> (string \<times> int64) \<times> 's) \<Rightarrow> error \<Rightarrow>
    's world \<Rightarrow> panic option \<times> 's world" where
  "Trace rt l ctx begin fc err w =
    (let elapsed = time_Since rt begin in
     if err \<noteq> None \<and>
        (\<not> errors_Is err ErrRecordNotFound \<or> \<not> IgnoreRecordNotFoundError (cfg l)) then
       (case invoke fc w of
          ((sql, rows), w') \<Rightarrow>
            if rows = - 1 then
              logf (log l) ctx
                [''file'' \<mapsto> VString (utils_FileWithLineNum rt), ErrorKey \<mapsto> VError err]
                ErrorLevel ''[%.3fms] [rows:%v] %s''
                [VFloat64 (milliseconds elapsed), VString ''-'', VString sql] w'
            else
              logf (log l) ctx
                [''file'' \<mapsto> VString (utils_FileWithLineNum rt), ErrorKey \<mapsto> VError err]
                ErrorLevel ''[%.3fms] [rows:%v] %s''
                [VFloat64 (milliseconds elapsed), VInt64 rows, VString sql] w')
     else if sint (SlowThreshold (cfg l)) < sint elapsed \<and> SlowThreshold (cfg l) \<noteq> 0 then
       (case invoke fc w of
          ((sql, rows), w') \<Rightarrow>
            (let slowLog = slowLog_text (SlowThreshold (cfg l)) in
             if rows = - 1 then
               logf (log l) ctx
                 [''file'' \<mapsto> VString (utils_FileWithLineNum rt), ''slowLog'' \<mapsto> VString slowLog]
                 WarnLevel ''[%.3fms] [rows:%v] %s''
                 [VFloat64 (milliseconds elapsed), VString ''-'', VString sql] w'
             else
               logf (log l) ctx
                 [''file'' \<mapsto> VString (utils_FileWithLineNum rt), ''slowLog'' \<mapsto> VString slowLog]
                 WarnLevel ''[%.3fms] [rows:%v] %s''
                 [VFloat64 (milliseconds elapsed), VInt64 rows, VString sql] w'))
     else
       (case invoke fc w of
          ((sql, rows), w') \<Rightarrow>
            if rows = - 1 then
              logf (log l) ctx [''file'' \<mapsto> VString (utils_FileWithLineNum rt)]
                DebugLevel ''[%.3fms] [rows:%v] %s''
                [VFloat64 (milliseconds elapsed), VString ''-'', VString sql] w'
            else
              logf (log l) ctx [''file'' \<mapsto> VString (utils_FileWithLineNum rt)]
                DebugLevel ''[%.3fms] [rows:%v] %s''
                [VFloat64 (milliseconds elapsed), VInt64 rows, VString sql] w'))"

text \<open>
  \<open>New\<close>: the options run in order on a zero \<open>options\<close> value; a nil logger is replaced
  by the standard logger; the adapter is allocated.
\<close>

fun range_opts :: "Option list \<Rightarrow> options \<Rightarrow> options" where
  "range_opts [] opt = opt"
| "range_opts (f # fs) opt = range_opts fs (f opt)"

definition zero_Config :: Config where
  "zero_Config = \<lparr>SlowThreshold = 0, IgnoreRecordNotFoundError = False, LogLevel = 0\<rparr>"

definition zero_options :: options where
  "zero_options = \<lparr>options.log = None, options.cfg = zero_Config\<rparr>"

definition New :: "Option list \<Rightarrow> 's world \<Rightarrow> nat \<times> 's world" where
  "New opts w =
    (let opt = range_opts opts zero_options;
         opt = (if options.log opt = None then opt\<lparr>options.log := StandardLogger\<rparr> else opt)
     in alloc \<lparr>log = options.log opt, cfg = options.cfg opt\<rparr> w)"

section \<open>The vocabulary of the properties\<close>

text \<open>
  An operation \<open>emits\<close> a call when the journal after it is the journal before it with
  exactly that call appended: one call reached the sink, no other did.
\<close>

definition emits :: "'s world \<Rightarrow> 's world \<Rightarrow> sink_call \<Rightarrow> bool" where
  "emits w w' c = (journal w' = journal w @ [c])"

text \<open>
  The three kinds of call \<open>Trace\<close> makes. The error bucket: error severity, with the
  source location and the error under logrus's error key. The slow bucket: warning
  severity, with the source location and the tag naming the threshold. The normal bucket:
  debug severity, with the source location.
\<close>

definition error_emission :: "runtime \<Rightarrow> error \<Rightarrow> sink_call \<Rightarrow> bool" where
  "error_emission rt err c =
    (call_level c = ErrorLevel \<and>
     call_fields c = [''file'' \<mapsto> VString (utils_FileWithLineNum rt), ErrorKey \<mapsto> VError err])"

definition slow_emission :: "runtime \<Rightarrow> Duration \<Rightarrow> sink_call \<Rightarrow> bool" where
  "slow_emission rt threshold c =
    (call_level c = WarnLevel \<and>
     call_fields c =
       [''file'' \<mapsto> VString (utils_FileWithLineNum rt),
        ''slowLog'' \<mapsto> VString (''SLOW SQL >= '' @ Duration_String threshold)])"

definition normal_emission :: "runtime \<Rightarrow> sink_call \<Rightarrow> bool" where
  "normal_emission rt c =
    (call_level c = DebugLevel \<and>
     call_fields c = [''file'' \<mapsto> VString (utils_FileWithLineNum rt)])"

text \<open>
  The message body as the spec words it: the elapsed time in milliseconds with three
  decimals, the row count with \<open>-\<close> for \<open>-1\<close> and its decimal value otherwise,
  and the statement.

  A number with three decimals is a count \<open>n\<close> of thousandths and a sign;
  \<open>thousandths\<close> is its text. \<open>elapsed_ms_3_decimals elapsed n\<close> says which counts
  stand for the elapsed time: \<open>n / 1000\<close> milliseconds differ from the elapsed
  nanoseconds divided by \<open>10 ^ 6\<close> by at most half a thousandth, and by the part of the
  elapsed time, one in \<open>2 ^ 51\<close>, that arithmetic in float64 may lose. Below \<open>2 ^ 51\<close>
  nanoseconds (26 days) that part is less than a nanosecond, and \<open>n\<close> is the elapsed
  time rounded to the nearest thousandth of a millisecond (\<open>nearest_thousandth\<close>).
\<close>

definition thousandths :: "bool \<Rightarrow> nat \<Rightarrow> string" where
  "thousandths neg n =
    (if neg then ''-'' else []) @ fmtInt [] (n div 1000) @
    [CHR ''.'', digit_char (n div 100 mod 10), digit_char (n div 10 mod 10),
     digit_char (n mod 10)]"

definition elapsed_ms_3_decimals :: "Duration \<Rightarrow> nat \<Rightarrow> bool" where
  "elapsed_ms_3_decimals elapsed n =
    (\<bar>real n / 1000 - \<bar>real_of_int (sint elapsed)\<bar> / 1000000\<bar> \<le>
      1 / 2000 + \<bar>real_of_int (sint elapsed)\<bar> / 1000000 / 2 ^ 51)"

definition rows_text :: "int64 \<Rightarrow> string" where
  "rows_text rows = (if rows = - 1 then ''-'' else FormatInt rows)"

definition message_body :: "bool \<Rightarrow> nat \<Rightarrow> int64 \<Rightarrow> string \<Rightarrow> string" where
  "message_body neg n rows sql =
    ''['' @ thousandths neg n @ ''ms] [rows:'' @ rows_text rows @ ''] '' @ sql"

text \<open>A callback with a counter of its invocations added to the caller's state.\<close>

definition counted :: "('s \<Rightarrow> 'r \<times> 's) \<Rightarrow> nat \<times> 's \<Rightarrow> 'r \<times> (nat \<times> 's)" where
  "counted f = (\<lambda>(n, s). case f s of (r, s') \<Rightarrow> (r, (Suc n, s')))"

text \<open>The adapter a returned address points to, in the world returned with it.\<close>

definition built :: "nat \<times> 's world \<Rightarrow> Logger" where
  "built r = loggers (snd r) ! fst r"

subsection \<open>A worked example\<close>

text \<open>
  A query that took 150ms, traced by an adapter with a slow threshold of 100ms that
  ignores record-not-found errors; the callback reports the statement and an unknown row
  count, and counts its invocations.
\<close>

definition example_rt :: runtime where
  "example_rt = \<lparr>time_Since = (\<lambda>t. 150000000), utils_FileWithLineNum = ''query.go:42''\<rparr>"

definition example_cfg :: Config where
  "example_cfg =
    \<lparr>SlowThreshold = 100000000, IgnoreRecordNotFoundError = True, LogLevel = 4\<rparr>"

definition example_logger :: Logger where
  "example_logger = \<lparr>log = Some (Instance 0), cfg = example_cfg\<rparr>"

definition example_fc :: "nat \<Rightarrow> (string \<times> int64) \<times> nat" where
  "example_fc = (\<lambda>n. ((''SELECT 1'', - 1), Suc n))"

definition example_world :: "nat world" where
  "example_world = \<lparr>loggers = [example_logger], journal = [], caller = 0\<rparr>"

text \<open>A second query: 1234567 nanoseconds, three rows.\<close>

definition example_rt_fast :: runtime where
  "example_rt_fast = \<lparr>time_Since = (\<lambda>t. 1234567), utils_FileWithLineNum = ''query.go:42''\<rparr>"

definition example_fc_rows :: "nat \<Rightarrow> (string \<times> int64) \<times> nat" where
  "example_fc_rows = (\<lambda>n. ((''DELETE'', 3), Suc n))"

section \<open>Properties\<close>

declare fmtInt_loop.simps [simp del]

declare bit_length.simps [simp del]

subsection \<open>What \<open>Trace\<close> does, in one equation\<close>

text \<open>
  With a sink, \<open>Trace\<close> never panics: it runs the callback on the caller's state and
  appends one call, whose level and fields depend on the case of the switch and whose
  format and operands do not.
\<close>

lemma Trace_call:
  assumes "log l = Some s"
  shows "Trace rt l ctx t fc err w =
    (None,
     w\<lparr>caller := snd (fc (caller w)),
       journal := journal w @
        [\<lparr>call_logger = s,
          call_level =
            (if err \<noteq> None \<and>
                (\<not> errors_Is err ErrRecordNotFound \<or> \<not> IgnoreRecordNotFoundError (cfg l))
             then ErrorLevel
             else if sint (SlowThreshold (cfg l)) < sint (time_Since rt t) \<and>
                     SlowThreshold (cfg l) \<noteq> 0
             then WarnLevel else DebugLevel),
          call_context = ctx,
          call_fields =
            (if err \<noteq> None \<and>
                (\<not> errors_Is err ErrRecordNotFound \<or> \<not> IgnoreRecordNotFoundError (cfg l))
             then [''file'' \<mapsto> VString (utils_FileWithLineNum rt), ErrorKey \<mapsto> VError err]
             else if sint (SlowThreshold (cfg l)) < sint (time_Since rt t) \<and>
                     SlowThreshold (cfg l) \<noteq> 0
             then [''file'' \<mapsto> VString (utils_FileWithLineNum rt),
                   ''slowLog'' \<mapsto> VString (slowLog_text (SlowThreshold (cfg l)))]
             else [''file'' \<mapsto> VString (utils_FileWithLineNum rt)]),
          call_format = ''[%.3fms] [rows:%v] %s'',
          call_args =
            [VFloat64 (milliseconds (time_Since rt t)),
             (if snd (fst (fc (caller w))) = - 1 then VString ''-''
              else VInt64 (snd (fst (fc (caller w))))),
             VString (fst (fst (fc (caller w))))]\<rparr>]\<rparr>)"
proof -
  obtain sql rows s' where "fc (caller w) = ((sql, rows), s')"
    by (cases "fc (caller w)") auto
  then show ?thesis
    using assms by (simp add: Trace_def logf_def invoke_def Let_def)
qed

lemma error_fires_iff:
  assumes "log l = Some s"
  shows "(\<exists>c. emits w (snd (Trace rt l ctx t fc err w)) c \<and> error_emission rt err c) =
    (err \<noteq> None \<and>
      (\<not> errors_Is err ErrRecordNotFound \<or> \<not> IgnoreRecordNotFoundError (cfg l)))"
  by (simp add: Trace_call [OF assms] emits_def error_emission_def)

lemma slow_fires_iff:
  assumes "log l = Some s"
    and "\<not> (\<exists>c. emits w (snd (Trace rt l ctx t fc err w)) c \<and> error_emission rt err c)"
  shows "(\<exists>c. emits w (snd (Trace rt l ctx t fc err w)) c \<and>
            slow_emission rt (SlowThreshold (cfg l)) c) =
    (SlowThreshold (cfg l) \<noteq> 0 \<and> sint (SlowThreshold (cfg l)) < sint (time_Since rt t))"
proof -
  have "\<not> (err \<noteq> None \<and>
      (\<not> errors_Is err ErrRecordNotFound \<or> \<not> IgnoreRecordNotFoundError (cfg l)))"
    using assms(2) by (simp add: error_fires_iff [OF assms(1)])
  then show ?thesis
    by (auto simp add: Trace_call [OF assms(1)] emits_def slow_emission_def slowLog_text_def)
qed

lemma normal_fires_iff:
  assumes "log l = Some s"
    and "\<not> (\<exists>c. emits w (snd (Trace rt l ctx t fc err w)) c \<and> error_emission rt err c)"
  shows "(\<exists>c. emits w (snd (Trace rt l ctx t fc err w)) c \<and> normal_emission rt c \<and>
            dom (call_fields c) = {''file''}) =
    (\<not> (SlowThreshold (cfg l) \<noteq> 0 \<and> sint (SlowThreshold (cfg l)) < sint (time_Since rt t)))"
proof -
  have "\<not> (err \<noteq> None \<and>
      (\<not> errors_Is err ErrRecordNotFound \<or> \<not> IgnoreRecordNotFoundError (cfg l)))"
    using assms(2) by (simp add: error_fires_iff [OF assms(1)])
  then show ?thesis
    by (auto simp add: Trace_call [OF assms(1)] emits_def normal_emission_def)
qed

lemma Trace_ignores_LogLevel:
  "Trace rt (l\<lparr>cfg := (cfg l)\<lparr>LogLevel := level\<rparr>\<rparr>) ctx t fc err u = Trace rt l ctx t fc err u"
proof -
  obtain sql rows u' where "invoke fc u = ((sql, rows), u')"
    by (cases "invoke fc u") auto
  then show ?thesis
    by (simp add: Trace_def Let_def)
qed

subsection \<open>Evaluating the formatting functions\<close>

text \<open>
  The simplifier evaluates the digit loops on numerals with these equations; the
  recursive equations themselves are not simplification rules.
\<close>

lemma digit_char_numerals:
  "digit_char 0 = CHR ''0''" "digit_char 1 = CHR ''1''" "digit_char 2 = CHR ''2''"
  "digit_char 3 = CHR ''3''" "digit_char 4 = CHR ''4''" "digit_char 5 = CHR ''5''"
  "digit_char 6 = CHR ''6''" "digit_char 7 = CHR ''7''" "digit_char 8 = CHR ''8''"
  "digit_char 9 = CHR ''9''"
  by (simp_all add: digit_char_def char_of_def bit_iff_odd)

lemma digit_char_nth: "d < 10 \<Longrightarrow> digit_char d = ''0123456789'' ! d"
proof -
  assume "d < 10"
  then have "d = 0 \<or> d = 1 \<or> d = 2 \<or> d = 3 \<or> d = 4 \<or> d = 5 \<or> d = 6 \<or> d = 7 \<or> d = 8 \<or> d = 9"
    by arith
  then show ?thesis
    using digit_char_numerals by (elim disjE) (simp_all del: One_nat_def)
qed

lemma fmtInt_loop_numeral:
  "fmtInt_loop buf (numeral k) =
     fmtInt_loop (digit_char (numeral k mod 10) # buf) (numeral k div 10)"
  by (subst fmtInt_loop.simps) simp

lemma fmtInt_loop_Suc:
  "fmtInt_loop buf (Suc n) =
     fmtInt_loop (digit_char (Suc n mod 10) # buf) (Suc n div 10)"
  by (subst fmtInt_loop.simps) simp

lemma fmtInt_loop_0: "fmtInt_loop buf 0 = buf"
  by (subst fmtInt_loop.simps) simp

lemma fmtFrac_loop_numeral:
  "fmtFrac_loop (numeral k) buf v print =
    (let digit = v mod 10;
         print = (print \<or> digit \<noteq> 0);
         buf = (if print then digit_char digit # buf else buf)
     in fmtFrac_loop (pred_numeral k) buf (v div 10) print)"
  by (simp only: numeral_eq_Suc [of k] fmtFrac_loop.simps)

lemma bit_length_numeral:
  "bit_length (numeral k) = Suc (bit_length (numeral k div 2))"
  by (subst bit_length.simps) simp

lemma bit_length_Suc:
  "bit_length (Suc n) = Suc (bit_length (Suc n div 2))"
  by (subst bit_length.simps) simp

lemma bit_length_0: "bit_length 0 = 0"
  by (subst bit_length.simps) simp

lemmas digits_eval = fmtInt_def fmtInt_loop_numeral fmtInt_loop_Suc fmtInt_loop_0 fmtFrac_def
  fmtFrac_loop_numeral digit_char_nth

lemmas bit_length_eval = bit_length_numeral bit_length_Suc bit_length_0

lemma Duration_String_100ms: "Duration_String 100000000 = ''100ms''"
  by (simp add: Duration_String_def Second_def Millisecond_def Microsecond_def digits_eval)

lemma Duration_String_minus_1ns: "Duration_String (- 1) = ''-1ns''"
  by (simp add: Duration_String_def Second_def Millisecond_def Microsecond_def digits_eval)

lemma float64_of_int64_150ms:
  "float64_of_int64 150000000 = Float64 5033164800000000 (- 25)"
proof -
  have "bit_length 150000000 = 28" and "bit_length (Suc 0) = Suc 0"
    by (simp_all add: bit_length_eval)
  then show ?thesis
    by (simp add: float64_of_int64_def float64_nearest_def round_half_even_def Let_def)
qed

lemma milliseconds_150ms: "milliseconds 150000000 = Float64 5277655813324800 (- 45)"
proof -
  have "bit_length 5033164800000000 = 53" and "bit_length 33554432000000 = 45"
    by (simp_all add: bit_length_eval)
  then show ?thesis
    by (simp add: milliseconds_def float64_of_int64_150ms float64_div_def float64_nearest_def
        round_half_even_def Let_def)
qed

lemma FormatFloat_f3_150ms: "FormatFloat_f3 (milliseconds 150000000) = ''150.000''"
  by (simp add: milliseconds_150ms FormatFloat_f3_def round_half_even_def Let_def digits_eval)

subsection \<open>How close the float is to the elapsed milliseconds\<close>

text \<open>
  Rounding to a 53-bit significand changes a number by at most one part in \<open>2 ^ 53\<close>.
  The conversion of the nanoseconds and the division by \<open>10 ^ 6\<close> each round once, so
  the float \<open>Trace\<close> passes is within one part in \<open>2 ^ 51\<close> of the elapsed nanoseconds
  divided by \<open>10 ^ 6\<close>, and has their sign. Printing with \<open>%.3f\<close> rounds once more, to
  a thousandth.
\<close>

lemma bit_length_bounds:
  "0 < n \<Longrightarrow> 2 ^ (bit_length n - 1) \<le> n \<and> n < 2 ^ bit_length n"
proof (induction n rule: bit_length.induct)
  case (1 n)
  show ?case
  proof (cases "n div 2 = 0")
    case True
    with "1.prems" have "n = 1" by linarith
    then show ?thesis
      by (simp add: bit_length.simps [of "Suc 0"] bit_length.simps [of 0])
  next
    case False
    then have pos: "0 < n div 2" by simp
    have IH: "2 ^ (bit_length (n div 2) - 1) \<le> n div 2 \<and> n div 2 < 2 ^ bit_length (n div 2)"
      using "1.IH" "1.prems" pos by simp
    have bl: "bit_length n = Suc (bit_length (n div 2))"
      using "1.prems" by (subst bit_length.simps) simp
    have blpos: "0 < bit_length (n div 2)"
      using pos by (subst bit_length.simps) simp
    have low: "(2::nat) ^ (bit_length n - 1) = 2 * 2 ^ (bit_length (n div 2) - 1)"
      using blpos by (cases "bit_length (n div 2)") (simp_all add: bl)
    have high: "(2::nat) ^ bit_length n = 2 * 2 ^ bit_length (n div 2)"
      by (simp add: bl)
    have "2 * (n div 2) \<le> n" and "n < 2 * (n div 2) + 2"
      by linarith+
    then show ?thesis
      unfolding low high using IH by linarith
  qed
qed

lemma two_powers_quotient:
  "(2::real) ^ nat k / 2 ^ nat (- k) = 2 powi k"
proof (cases "0 \<le> k")
  case True
  then show ?thesis by (simp add: power_int_def)
next
  case False
  then show ?thesis by (simp add: power_int_def field_simps)
qed

lemma round_half_even_close:
  assumes "0 < b"
  shows "\<bar>real (round_half_even a b) - real a / real b\<bar> \<le> 1 / 2"
proof -
  define q r where "q = a div b" and "r = a mod b"
  have a: "a = q * b + r" and r: "r < b"
    using assms by (simp_all add: q_def r_def)
  have ab: "real a / real b = real q + real r / real b"
    using assms by (simp add: a field_simps)
  have r01: "0 \<le> real r / real b" "real r / real b < 1"
    using assms r by simp_all
  consider "2 * r < b" | "b < 2 * r" | "2 * r = b" by linarith
  then show ?thesis
  proof cases
    case 1
    then have "real r / real b < 1 / 2"
      using assms by (simp add: field_simps)
    with 1 r01 show ?thesis
      by (simp add: round_half_even_def Let_def q_def [symmetric] r_def [symmetric] ab)
  next
    case 2
    then have "1 / 2 < real r / real b"
      using assms by (simp add: field_simps)
    with 2 r01 show ?thesis
      by (simp add: round_half_even_def Let_def q_def [symmetric] r_def [symmetric] ab)
  next
    case 3
    then have "real r / real b = 1 / 2"
      using assms by (simp add: field_simps)
    with 3 show ?thesis
      by (simp add: round_half_even_def Let_def q_def [symmetric] r_def [symmetric] ab)
  qed
qed

lemma exponent_low:
  assumes "0 < n" and "0 < b"
  defines "k \<equiv> int (bit_length n) - int (bit_length b)"
  defines "e \<equiv> (if b * 2 ^ nat k \<le> n * 2 ^ nat (- k) then k else k - 1)"
  shows "2 powi e \<le> real n / real b"
proof (cases "b * 2 ^ nat k \<le> n * 2 ^ nat (- k)")
  case True
  then have "real (b * 2 ^ nat k) \<le> real (n * 2 ^ nat (- k))"
    by (simp only: of_nat_le_iff)
  then have "real b * real (2 ^ nat k) \<le> real n * real (2 ^ nat (- k))"
    by simp
  then have "real (2 ^ nat k) / real (2 ^ nat (- k)) \<le> real n / real b"
    using assms(2) by (simp add: field_simps)
  then show ?thesis
    using True by (simp add: e_def two_powers_quotient)
next
  case False
  have n: "2 ^ (bit_length n - 1) \<le> n" and b: "b < 2 ^ bit_length b"
    using bit_length_bounds [OF assms(1)] bit_length_bounds [OF assms(2)] by simp_all
  have pos: "0 < bit_length n"
    using assms(1) by (subst bit_length.simps) simp
  have "(2::real) powi (k - 1) = 2 ^ (bit_length n - 1) / 2 ^ bit_length b"
  proof -
    have "k - 1 = int (bit_length n - 1) - int (bit_length b)"
      using pos by (simp add: k_def)
    then show ?thesis
      by (simp add: power_int_diff)
  qed
  also have "\<dots> \<le> real n / real b"
  proof -
    have "(2::real) ^ (bit_length n - 1) \<le> real n"
      using n by (metis of_nat_le_iff of_nat_numeral of_nat_power)
    moreover have "real b \<le> 2 ^ bit_length b"
      using b by (metis less_imp_le of_nat_le_iff of_nat_numeral of_nat_power)
    ultimately show ?thesis
      using assms(2) by (intro frac_le) simp_all
  qed
  finally show ?thesis
    using False by (simp add: e_def)
qed

lemma float64_nearest_close:
  assumes "a \<noteq> 0" and "0 < b"
  shows "\<exists>m s. float64_nearest a b = Float64 m s \<and>
    \<bar>real_of_int m * 2 powi s - real_of_int a / real b\<bar> \<le> \<bar>real_of_int a / real b\<bar> / 2 ^ 53 \<and>
    (m < 0 \<longleftrightarrow> a < 0) \<and> m \<noteq> 0"
proof -
  define n where "n = nat \<bar>a\<bar>"
  define k where "k = int (bit_length n) - int (bit_length b)"
  define e where "e = (if b * 2 ^ nat k \<le> n * 2 ^ nat (- k) then k else k - 1)"
  define s where "s = e - 52"
  define M where "M = round_half_even (n * 2 ^ nat (- s)) (b * 2 ^ nat s)"
  have n: "0 < n" "real n = \<bar>real_of_int a\<bar>"
    using assms(1) by (simp_all add: n_def)
  have f: "float64_nearest a b = Float64 (sgn a * int M) s"
    using assms(1) by (simp add: float64_nearest_def Let_def n_def k_def e_def s_def M_def)
  have e: "2 powi e \<le> real n / real b"
    unfolding e_def k_def by (rule exponent_low [OF n(1) assms(2)])
  have q: "real (n * 2 ^ nat (- s)) / real (b * 2 ^ nat s) = (real n / real b) / 2 powi s"
    using two_powers_quotient [of s] by (simp add: field_simps)
  have "\<bar>real M - real (n * 2 ^ nat (- s)) / real (b * 2 ^ nat s)\<bar> \<le> 1 / 2"
    unfolding M_def using assms(2) by (intro round_half_even_close) simp
  then have M: "\<bar>real M - (real n / real b) / 2 powi s\<bar> \<le> 1 / 2"
    by (simp only: q)
  have ps: "(0::real) < 2 powi s"
    by simp
  have se: "(2::real) powi s = 2 powi e / 2 ^ 52"
    by (simp add: s_def power_int_diff)
  have "\<bar>real M * 2 powi s - real n / real b\<bar> = \<bar>real M - (real n / real b) / 2 powi s\<bar> * 2 powi s"
  proof -
    have "real M * 2 powi s - real n / real b = (real M - (real n / real b) / 2 powi s) * 2 powi s"
      using ps by (simp add: field_simps)
    then show ?thesis
      using ps by (simp add: abs_mult)
  qed
  also have "\<dots> \<le> 1 / 2 * 2 powi s"
    using M ps by (intro mult_right_mono) simp_all
  also have "\<dots> = 2 powi e / 2 ^ 53"
    by (simp add: se)
  also have "\<dots> \<le> (real n / real b) / 2 ^ 53"
    using e by (simp add: divide_right_mono)
  finally have close: "\<bar>real M * 2 powi s - real n / real b\<bar> \<le> (real n / real b) / 2 ^ 53" .
  have pe: "(0::real) < 2 powi e"
    by simp
  define X where "X = (real n / real b) / 2 powi e"
  have X1: "1 \<le> X"
    unfolding X_def pos_le_divide_eq [OF pe] using e by simp
  have "(real n / real b) / 2 powi s = X * 2 ^ 52"
    by (simp add: X_def se)
  then have big: "2 ^ 52 \<le> (real n / real b) / 2 powi s"
    using X1 by simp
  have Mpos: "0 < M"
  proof -
    define Y where "Y = (real n / real b) / 2 powi s"
    have "\<bar>real M - Y\<bar> \<le> 1 / 2" and "2 ^ 52 \<le> Y"
      using M big by (simp_all only: Y_def)
    moreover have "(1::real) \<le> 2 ^ 52"
      by simp
    ultimately have "0 < real M"
      by linarith
    then show ?thesis
      by simp
  qed
  have "real_of_int (sgn a * int M) * 2 powi s - real_of_int a / real b =
      real_of_int (sgn a) * (real M * 2 powi s - real n / real b)"
  proof -
    have "real_of_int a = real_of_int (sgn a) * real n"
      by (simp add: n(2) sgn_if)
    then show ?thesis
      by (simp add: algebra_simps)
  qed
  then have eq1: "\<bar>real_of_int (sgn a * int M) * 2 powi s - real_of_int a / real b\<bar> =
      \<bar>real M * 2 powi s - real n / real b\<bar>"
    using assms(1) by (simp add: abs_mult sgn_if)
  have eq2: "\<bar>real_of_int a / real b\<bar> = real n / real b"
    using assms(2) by (simp add: n(2))
  have v: "\<bar>real_of_int (sgn a * int M) * 2 powi s - real_of_int a / real b\<bar> \<le>
      \<bar>real_of_int a / real b\<bar> / 2 ^ 53"
    by (simp only: eq1 eq2 close)
  have "sgn a * int M < 0 \<longleftrightarrow> a < 0"
    using Mpos assms(1) by (simp add: sgn_if mult_less_0_iff)
  moreover have "sgn a * int M \<noteq> 0"
    using Mpos assms(1) by (simp add: sgn_if)
  ultimately show ?thesis
    using f v by blast
qed

lemma milliseconds_close:
  "\<exists>m e. milliseconds d = Float64 m e \<and>
    \<bar>real_of_int m * 2 powi e - real_of_int (sint d) / 1000000\<bar> \<le>
      \<bar>real_of_int (sint d)\<bar> / 1000000 / 2 ^ 51 \<and>
    (m < 0 \<longleftrightarrow> sint d < 0)"
proof (cases "sint d = 0")
  case True
  then have "milliseconds d = Float64 0 0"
    by (simp add: milliseconds_def float64_of_int64_def float64_div_def float64_nearest_def)
  then show ?thesis
    using True by simp
next
  case False
  define N where "N = real_of_int (sint d)"
  obtain m1 s1 where x1: "float64_of_int64 d = Float64 m1 s1"
    and c1: "\<bar>real_of_int m1 * 2 powi s1 - real_of_int (sint d) / real 1\<bar> \<le>
      \<bar>real_of_int (sint d) / real 1\<bar> / 2 ^ 53"
    and g1: "m1 < 0 \<longleftrightarrow> sint d < 0" and z1: "m1 \<noteq> 0"
    using float64_nearest_close [OF False, of 1] by (auto simp add: float64_of_int64_def)
  define V1 where "V1 = real_of_int m1 * 2 powi s1"
  have c1': "\<bar>V1 - N\<bar> \<le> \<bar>N\<bar> / 2 ^ 53"
    using c1 by (simp add: V1_def N_def)
  have a: "m1 * 2 ^ nat s1 \<noteq> 0" and b: "(0::nat) < 1000000 * 2 ^ nat (- s1)"
    using z1 by simp_all
  have quo: "real_of_int (m1 * 2 ^ nat s1) / real (1000000 * 2 ^ nat (- s1)) = V1 / 1000000"
    using two_powers_quotient [of s1] by (simp add: V1_def field_simps)
  obtain m2 s2 where x2: "float64_nearest (m1 * 2 ^ nat s1) (1000000 * 2 ^ nat (- s1)) = Float64 m2 s2"
    and c2: "\<bar>real_of_int m2 * 2 powi s2 -
        real_of_int (m1 * 2 ^ nat s1) / real (1000000 * 2 ^ nat (- s1))\<bar> \<le>
      \<bar>real_of_int (m1 * 2 ^ nat s1) / real (1000000 * 2 ^ nat (- s1))\<bar> / 2 ^ 53"
    and g2: "m2 < 0 \<longleftrightarrow> m1 * 2 ^ nat s1 < 0"
    using float64_nearest_close [OF a b] by blast
  define V2 where "V2 = real_of_int m2 * 2 powi s2"
  have c2': "\<bar>V2 - V1 / 1000000\<bar> \<le> \<bar>V1 / 1000000\<bar> / 2 ^ 53"
    using c2 unfolding quo V2_def .
  have ms: "milliseconds d = Float64 m2 s2"
    by (simp add: milliseconds_def x1 float64_div_def x2)
  have sign: "m2 < 0 \<longleftrightarrow> sint d < 0"
    using g1 g2 by (simp add: mult_less_0_iff)
  have "\<bar>V2 - N / 1000000\<bar> \<le> \<bar>N\<bar> / 1000000 / 2 ^ 51"
  proof -
    define E where "E = \<bar>N\<bar> / 9007199254740992"
    have E: "\<bar>V1 - N\<bar> \<le> E"
      using c1' by (simp add: E_def)
    have "\<bar>N\<bar> / 9007199254740992 \<le> \<bar>N\<bar>"
      by simp
    then have "E \<le> \<bar>N\<bar>"
      by (simp only: E_def)
    with E have V1: "\<bar>V1\<bar> \<le> 2 * \<bar>N\<bar>"
      by linarith
    have "\<bar>V1 / 1000000\<bar> / 2 ^ 53 = \<bar>V1\<bar> / 9007199254740992 / 1000000"
      by simp
    also have "\<dots> \<le> 2 * \<bar>N\<bar> / 9007199254740992 / 1000000"
      using V1 by (simp add: divide_right_mono)
    also have "\<dots> = 2 * E / 1000000"
      by (simp add: E_def)
    finally have "\<bar>V2 - V1 / 1000000\<bar> \<le> 2 * E / 1000000"
      using c2' by linarith
    with E have "\<bar>V2 - N / 1000000\<bar> \<le> 4 * E / 1000000"
      by linarith
    also have "\<dots> = \<bar>N\<bar> / 1000000 / 2 ^ 51"
      by (simp add: E_def)
    finally show ?thesis .
  qed
  then show ?thesis
    using ms sign by (auto simp add: V2_def N_def)
qed

lemma FormatFloat_f3_thousandths:
  "FormatFloat_f3 (Float64 m e) =
    thousandths (m < 0) (round_half_even (nat \<bar>m\<bar> * 1000 * 2 ^ nat e) (2 ^ nat (- e)))"
  by (simp add: FormatFloat_f3_def thousandths_def Let_def)

lemma thousandths_close:
  "\<bar>real (round_half_even (nat \<bar>m\<bar> * 1000 * 2 ^ nat e) (2 ^ nat (- e))) -
      \<bar>real_of_int m * 2 powi e\<bar> * 1000\<bar> \<le> 1 / 2"
proof -
  have "real (nat \<bar>m\<bar> * 1000 * 2 ^ nat e) / real (2 ^ nat (- e)) =
      \<bar>real_of_int m\<bar> * 1000 * (2 ^ nat e / 2 ^ nat (- e))"
    by simp
  also have "\<dots> = \<bar>real_of_int m * 2 powi e\<bar> * 1000"
    by (simp only: two_powers_quotient) (simp add: abs_mult)
  finally have "real (nat \<bar>m\<bar> * 1000 * 2 ^ nat e) / real (2 ^ nat (- e)) =
      \<bar>real_of_int m * 2 powi e\<bar> * 1000" .
  moreover have "\<bar>real (round_half_even (nat \<bar>m\<bar> * 1000 * 2 ^ nat e) (2 ^ nat (- e))) -
      real (nat \<bar>m\<bar> * 1000 * 2 ^ nat e) / real (2 ^ nat (- e))\<bar> \<le> 1 / 2"
    by (intro round_half_even_close) simp
  ultimately show ?thesis
    by simp
qed

lemma milliseconds_text:
  "\<exists>n. FormatFloat_f3 (milliseconds d) = thousandths (sint d < 0) n \<and>
    elapsed_ms_3_decimals d n"
proof -
  obtain m e where ms: "milliseconds d = Float64 m e"
    and close: "\<bar>real_of_int m * 2 powi e - real_of_int (sint d) / 1000000\<bar> \<le>
      \<bar>real_of_int (sint d)\<bar> / 1000000 / 2 ^ 51"
    and sign: "m < 0 \<longleftrightarrow> sint d < 0"
    using milliseconds_close [of d] by blast
  define n where "n = round_half_even (nat \<bar>m\<bar> * 1000 * 2 ^ nat e) (2 ^ nat (- e))"
  define V where "V = real_of_int m * 2 powi e"
  define N where "N = real_of_int (sint d)"
  define E where "E = \<bar>N\<bar> / 1000000 / 2 ^ 51"
  have "\<bar>real n - \<bar>V\<bar> * 1000\<bar> \<le> 1 / 2"
    unfolding n_def V_def by (rule thousandths_close)
  moreover have "\<bar>V - N / 1000000\<bar> \<le> E"
    using close by (simp only: V_def N_def E_def)
  ultimately have "\<bar>real n / 1000 - \<bar>N\<bar> / 1000000\<bar> \<le> 1 / 2000 + E"
    by linarith
  then have "elapsed_ms_3_decimals d n"
    by (simp only: elapsed_ms_3_decimals_def N_def E_def)
  moreover have "FormatFloat_f3 (milliseconds d) = thousandths (sint d < 0) n"
    by (simp only: ms FormatFloat_f3_thousandths n_def sign)
  ultimately show ?thesis
    by blast
qed

lemma nearest_thousandth:
  assumes "elapsed_ms_3_decimals d n" and "\<bar>sint d\<bar> < 2 ^ 51"
  shows "\<bar>1000 * int n - \<bar>sint d\<bar>\<bar> \<le> 500"
proof -
  define N where "N = real_of_int \<bar>sint d\<bar>"
  have "\<bar>real n / 1000 - N / 1000000\<bar> \<le> 1 / 2000 + N / 1000000 / 2 ^ 51"
    using assms(1) by (simp add: elapsed_ms_3_decimals_def N_def)
  moreover have "N < 2 ^ 51"
    using assms(2) unfolding N_def by (metis of_int_less_iff of_int_numeral of_int_power)
  ultimately have "\<bar>1000 * real n - N\<bar> * 2251799813685248 < 501 * 2251799813685248"
    by (simp add: field_simps)
  then have "\<bar>1000 * real n - N\<bar> < 501"
    by (simp only: mult_less_cancel_right)
  then have "real_of_int \<bar>1000 * int n - \<bar>sint d\<bar>\<bar> < real_of_int 501"
    by (simp add: N_def)
  then have "\<bar>1000 * int n - \<bar>sint d\<bar>\<bar> < 501"
    by (simp only: of_int_less_iff)
  then show ?thesis
    by simp
qed

lemma thousandths_150000: "thousandths False 150000 = ''150.000''"
  by (simp add: thousandths_def digits_eval)

lemma thousandths_1235: "thousandths False 1235 = ''1.235''"
  by (simp add: thousandths_def digits_eval)

text \<open>The format of the message and of the slow-query tag, through \<open>Sprintf\<close>.\<close>

lemma Sprintf_message:
  "Sprintf ''[%.3fms] [rows:%v] %s'' [VFloat64 f, r, VString sql] =
    (case fmt_v r of
       None \<Rightarrow> None
     | Some t \<Rightarrow> Some (''['' @ FormatFloat_f3 f @ ''ms] [rows:'' @ t @ ''] '' @ sql))"
  by (simp add: fmt_f3_def fmt_s_def split: option.splits)

lemma Sprintf_slowLog:
  "Sprintf ''SLOW SQL >= %v'' [VDuration d] = Some (slowLog_text d)"
  by (simp add: fmt_v_def slowLog_text_def)

lemma Sprintf_percent: "Sprintf ''100%%'' [] = Some ''100%''"
  by simp

lemma Sprintf_error:
  "Sprintf ''%v: %s'' [VError None, VError ErrRecordNotFound] = Some ''<nil>: record not found''"
  by (simp add: fmt_v_def fmt_s_def ErrRecordNotFound_def)

text \<open>In the example, a call without an error is not in the error bucket.\<close>

lemma example_no_error_emission:
  "\<not> (\<exists>c. emits example_world
          (snd (Trace example_rt l 7 0 example_fc None example_world)) c \<and>
        error_emission example_rt None c)" if "log l = Some s" for l s
  by (simp add: error_fires_iff [OF that])

subsection \<open>The error bucket\<close>

text \<open>
  C1. On an adapter with a sink, a call of \<open>Trace\<close> emits the error-bucket call (error
  severity, with the source location and the error under the error key) if and only if
  the error is not nil and either is not the record-not-found sentinel (in the sense of
  \<open>errors.Is\<close>) or the adapter's ignore flag is off. With a record-not-found error and
  the flag on, \<open>Trace\<close> does exactly what it does with no error: it goes on to the slow
  and normal cases.
\<close>

theorem Trace_error_bucket:
  assumes "log l = Some s"
  shows "((\<exists>c. emits w (snd (Trace rt l ctx t fc err w)) c \<and> error_emission rt err c) \<longleftrightarrow>
      (err \<noteq> None \<and>
        (\<not> errors_Is err ErrRecordNotFound \<or> \<not> IgnoreRecordNotFoundError (cfg l)))) \<and>
    (errors_Is err ErrRecordNotFound \<and> IgnoreRecordNotFoundError (cfg l) \<longrightarrow>
      Trace rt l ctx t fc err w = Trace rt l ctx t fc None w)"
proof (intro conjI impI)
  show "(\<exists>c. emits w (snd (Trace rt l ctx t fc err w)) c \<and> error_emission rt err c) \<longleftrightarrow>
      (err \<noteq> None \<and>
        (\<not> errors_Is err ErrRecordNotFound \<or> \<not> IgnoreRecordNotFoundError (cfg l)))"
    by (rule error_fires_iff [OF assms])
next
  assume "errors_Is err ErrRecordNotFound \<and> IgnoreRecordNotFoundError (cfg l)"
  then show "Trace rt l ctx t fc err w = Trace rt l ctx t fc None w"
    by (simp add: Trace_call [OF assms])
qed

text \<open>
  In the example, a syntax error lands in the error bucket, and the sentinel is traced as
  no error is.
\<close>

theorem Trace_error_bucket_witness:
  "log example_logger = Some (Instance 0) \<and>
   (\<exists>c. emits example_world
          (snd (Trace example_rt example_logger 7 0 example_fc
                 (Some (ErrorString ''syntax error'')) example_world)) c \<and>
        error_emission example_rt (Some (ErrorString ''syntax error'')) c) \<and>
   Trace example_rt example_logger 7 0 example_fc ErrRecordNotFound example_world =
     Trace example_rt example_logger 7 0 example_fc None example_world"
  using Trace_error_bucket [where l = example_logger and s = "Instance 0" and w = example_world
      and rt = example_rt and ctx = 7 and t = 0 and fc = example_fc
      and err = "Some (ErrorString ''syntax error'')"]
    Trace_error_bucket [where l = example_logger and s = "Instance 0" and w = example_world
      and rt = example_rt and ctx = 7 and t = 0 and fc = example_fc
      and err = ErrRecordNotFound]
  by (simp add: example_logger_def example_cfg_def errors_Is_def ErrRecordNotFound_def)

subsection \<open>The slow and the normal bucket\<close>

text \<open>
  C2. On an adapter with a sink, when a call of \<open>Trace\<close> does not emit the error-bucket
  call, it emits the slow-bucket call (warning severity, with the source location and the
  tag \<open>SLOW SQL >= \<close> followed by the threshold as Go prints a duration) if and only if
  the slow threshold is not zero and the elapsed time is greater than it; and it emits the
  normal-bucket call (debug severity, the source location its only field) if and only if
  that is not so.
\<close>

theorem Trace_slow_or_normal_bucket:
  assumes "log l = Some s"
    and "\<not> (\<exists>c. emits w (snd (Trace rt l ctx t fc err w)) c \<and> error_emission rt err c)"
  shows "((\<exists>c. emits w (snd (Trace rt l ctx t fc err w)) c \<and>
              slow_emission rt (SlowThreshold (cfg l)) c) \<longleftrightarrow>
          (SlowThreshold (cfg l) \<noteq> 0 \<and>
            sint (SlowThreshold (cfg l)) < sint (time_Since rt t))) \<and>
         ((\<exists>c. emits w (snd (Trace rt l ctx t fc err w)) c \<and> normal_emission rt c \<and>
              dom (call_fields c) = {''file''}) \<longleftrightarrow>
          \<not> (SlowThreshold (cfg l) \<noteq> 0 \<and>
            sint (SlowThreshold (cfg l)) < sint (time_Since rt t)))"
  using slow_fires_iff [OF assms] normal_fires_iff [OF assms] by simp

text \<open>
  In the example (150ms against a threshold of 100ms, no error) the call is a warning
  tagged \<open>SLOW SQL >= 100ms\<close>, and no normal-bucket call is made.
\<close>

theorem Trace_slow_or_normal_bucket_witness:
  "log example_logger = Some (Instance 0) \<and>
   \<not> (\<exists>c. emits example_world
          (snd (Trace example_rt example_logger 7 0 example_fc None example_world)) c \<and>
        error_emission example_rt None c) \<and>
   (\<exists>c. emits example_world
          (snd (Trace example_rt example_logger 7 0 example_fc None example_world)) c \<and>
        call_level c = WarnLevel \<and>
        call_fields c ''slowLog'' = Some (VString ''SLOW SQL >= 100ms'')) \<and>
   \<not> (\<exists>c. emits example_world
          (snd (Trace example_rt example_logger 7 0 example_fc None example_world)) c \<and>
        normal_emission example_rt c \<and> dom (call_fields c) = {''file''})"
proof -
  have h1: "log example_logger = Some (Instance 0)"
    by (simp add: example_logger_def)
  have h2: "\<not> (\<exists>c. emits example_world
          (snd (Trace example_rt example_logger 7 0 example_fc None example_world)) c \<and>
        error_emission example_rt None c)"
    by (rule example_no_error_emission [OF h1])
  have th: "SlowThreshold (cfg example_logger) = 100000000"
    and el: "time_Since example_rt 0 = 150000000"
    by (simp_all add: example_logger_def example_cfg_def example_rt_def)
  from Trace_slow_or_normal_bucket [OF h1 h2]
  have "(\<exists>c. emits example_world
          (snd (Trace example_rt example_logger 7 0 example_fc None example_world)) c \<and>
        slow_emission example_rt 100000000 c)"
    and n: "\<not> (\<exists>c. emits example_world
          (snd (Trace example_rt example_logger 7 0 example_fc None example_world)) c \<and>
        normal_emission example_rt c \<and> dom (call_fields c) = {''file''})"
    by (simp_all add: th el)
  then obtain c where "emits example_world
      (snd (Trace example_rt example_logger 7 0 example_fc None example_world)) c"
    and "slow_emission example_rt 100000000 c"
    by blast
  then have "emits example_world
      (snd (Trace example_rt example_logger 7 0 example_fc None example_world)) c \<and>
    call_level c = WarnLevel \<and>
    call_fields c ''slowLog'' = Some (VString ''SLOW SQL >= 100ms'')"
    by (simp add: slow_emission_def Duration_String_100ms)
  then show ?thesis
    using h1 h2 n by blast
qed

text \<open>
  C10. A negative slow threshold switches slow-query detection on: on an adapter with a
  sink and a negative threshold, a call of \<open>Trace\<close> that does not emit the error-bucket
  call and whose elapsed time is positive emits the slow-bucket call.
\<close>

theorem Trace_negative_threshold_is_slow:
  assumes "log l = Some s"
    and "\<not> (\<exists>c. emits w (snd (Trace rt l ctx t fc err w)) c \<and> error_emission rt err c)"
    and "sint (SlowThreshold (cfg l)) < 0"
    and "0 < sint (time_Since rt t)"
  shows "\<exists>c. emits w (snd (Trace rt l ctx t fc err w)) c \<and>
    slow_emission rt (SlowThreshold (cfg l)) c"
proof -
  have "SlowThreshold (cfg l) \<noteq> 0"
    using assms(3) by auto
  moreover have "sint (SlowThreshold (cfg l)) < sint (time_Since rt t)"
    using assms(3,4) by linarith
  ultimately show ?thesis
    by (simp add: slow_fires_iff [OF assms(1,2)])
qed

text \<open>The example adapter with a threshold of \<open>-1\<close> nanosecond.\<close>

theorem Trace_negative_threshold_is_slow_witness:
  "log (example_logger\<lparr>cfg := example_cfg\<lparr>SlowThreshold := - 1\<rparr>\<rparr>) = Some (Instance 0) \<and>
   \<not> (\<exists>c. emits example_world
          (snd (Trace example_rt (example_logger\<lparr>cfg := example_cfg\<lparr>SlowThreshold := - 1\<rparr>\<rparr>)
                 7 0 example_fc None example_world)) c \<and>
        error_emission example_rt None c) \<and>
   sint (SlowThreshold (cfg (example_logger\<lparr>cfg := example_cfg\<lparr>SlowThreshold := - 1\<rparr>\<rparr>))) < 0 \<and>
   0 < sint (time_Since example_rt 0) \<and>
   (\<exists>c. emits example_world
          (snd (Trace example_rt (example_logger\<lparr>cfg := example_cfg\<lparr>SlowThreshold := - 1\<rparr>\<rparr>)
                 7 0 example_fc None example_world)) c \<and>
        call_level c = WarnLevel \<and>
        call_fields c ''slowLog'' = Some (VString ''SLOW SQL >= -1ns''))"
proof -
  let ?l = "example_logger\<lparr>cfg := example_cfg\<lparr>SlowThreshold := - 1\<rparr>\<rparr>"
  have h1: "log ?l = Some (Instance 0)"
    by (simp add: example_logger_def)
  have h2: "\<not> (\<exists>c. emits example_world
          (snd (Trace example_rt ?l 7 0 example_fc None example_world)) c \<and>
        error_emission example_rt None c)"
    by (rule example_no_error_emission [OF h1])
  have h3: "sint (SlowThreshold (cfg ?l)) < 0"
    by simp
  have h4: "0 < sint (time_Since example_rt 0)"
    by (simp add: example_rt_def)
  from Trace_negative_threshold_is_slow [OF h1 h2 h3 h4]
  obtain c where "emits example_world (snd (Trace example_rt ?l 7 0 example_fc None example_world)) c"
    and "slow_emission example_rt (- 1) c"
    by auto
  then have "emits example_world (snd (Trace example_rt ?l 7 0 example_fc None example_world)) c \<and>
    call_level c = WarnLevel \<and>
    call_fields c ''slowLog'' = Some (VString ''SLOW SQL >= -1ns'')"
    by (simp add: slow_emission_def Duration_String_minus_1ns)
  then show ?thesis
    using h1 h2 h3 h4 by blast
qed

subsection \<open>The callback and the message\<close>

text \<open>
  C4. Every call of \<open>Trace\<close> invokes the callback exactly once, whatever the bucket (and
  whether or not the adapter has a sink): the caller's state after the call is the state
  one invocation leaves, and a callback that counts its invocations has counted one more.
\<close>

theorem Trace_invokes_callback_once:
  "caller (snd (Trace rt l ctx t fc err w)) = snd (fc (caller w)) \<and>
   fst (caller (snd (Trace rt l ctx t (counted fc) err v))) = Suc (fst (caller v))"
proof -
  have once: "caller (snd (Trace rt l ctx t g err u)) = snd (g (caller u))" for g and u :: "'c world"
  proof -
    obtain sql rows s' where "g (caller u) = ((sql, rows), s')"
      by (cases "g (caller u)") auto
    then show ?thesis
      by (cases "log l") (simp_all add: Trace_def logf_def invoke_def Let_def)
  qed
  have "fst (snd (counted fc p)) = Suc (fst p)" for p
    by (cases p) (simp add: counted_def split: prod.splits)
  then show ?thesis
    by (simp add: once)
qed

text \<open>In the example the counter goes from 0 to 1, with and without an error.\<close>

theorem Trace_invokes_callback_once_witness:
  "caller (snd (Trace example_rt example_logger 7 0 example_fc None example_world)) = Suc 0 \<and>
   fst (caller (snd (Trace example_rt example_logger 7 0 (counted example_fc)
       (Some (ErrorString ''syntax error''))
       \<lparr>loggers = [], journal = [], caller = (0, 0)\<rparr>))) = Suc 0"
  using Trace_invokes_callback_once [where rt = example_rt and l = example_logger and ctx = 7
      and t = 0 and fc = example_fc and err = None and w = example_world
      and v = "\<lparr>loggers = [], journal = [], caller = (0, 0)\<rparr>"]
    Trace_invokes_callback_once [where rt = example_rt and l = example_logger and ctx = 7
      and t = 0 and fc = example_fc and err = "Some (ErrorString ''syntax error'')"
      and w = example_world and v = "\<lparr>loggers = [], journal = [], caller = (0, 0)\<rparr>"]
  by (simp add: example_fc_def example_world_def)

text \<open>
  C5. On an adapter with a sink, the message of the call \<open>Trace\<close> emits, in every
  bucket, renders as a number with three decimals, the row count and the statement. The
  number stands for the elapsed time in milliseconds: its thousandths are within half a
  thousandth of the elapsed nanoseconds divided by \<open>10 ^ 6\<close> (and the part float64 may
  lose), so for an elapsed time below \<open>2 ^ 51\<close> nanoseconds it is that time rounded
  to the nearest thousandth of a millisecond; its sign is the sign of the elapsed time. The
  row count is \<open>-\<close> when the callback reports \<open>-1\<close> and its decimal value otherwise.
\<close>

theorem Trace_message_body:
  assumes "log l = Some s"
  shows "\<exists>c n. emits w (snd (Trace rt l ctx t fc err w)) c \<and>
    elapsed_ms_3_decimals (time_Since rt t) n \<and>
    (\<bar>sint (time_Since rt t)\<bar> < 2 ^ 51 \<longrightarrow>
      \<bar>1000 * int n - \<bar>sint (time_Since rt t)\<bar>\<bar> \<le> 500) \<and>
    Sprintf (call_format c) (call_args c) =
      Some (message_body (sint (time_Since rt t) < 0) n
        (snd (fst (fc (caller w)))) (fst (fst (fc (caller w)))))"
proof -
  obtain n where shown: "FormatFloat_f3 (milliseconds (time_Since rt t)) =
      thousandths (sint (time_Since rt t) < 0) n"
    and n: "elapsed_ms_3_decimals (time_Since rt t) n"
    using milliseconds_text [of "time_Since rt t"] by blast
  have "Sprintf ''[%.3fms] [rows:%v] %s''
      [VFloat64 (milliseconds (time_Since rt t)),
       (if snd (fst (fc (caller w))) = - 1 then VString ''-''
        else VInt64 (snd (fst (fc (caller w))))),
       VString (fst (fst (fc (caller w))))] =
    Some (message_body (sint (time_Since rt t) < 0) n
        (snd (fst (fc (caller w)))) (fst (fst (fc (caller w)))))"
    by (simp add: Sprintf_message fmt_v_def message_body_def rows_text_def shown
        del: Sprintf.simps)
  then show ?thesis
    using n nearest_thousandth [OF n]
    by (simp add: Trace_call [OF assms] emits_def del: Sprintf.simps) blast
qed

text \<open>
  The theorem fixes the text: 150ms can only print as \<open>150.000\<close>, and 1234567
  nanoseconds as \<open>1.235\<close>.
\<close>

theorem Trace_message_body_witness:
  "log example_logger = Some (Instance 0) \<and>
   (\<exists>c. emits example_world
          (snd (Trace example_rt example_logger 7 0 example_fc None example_world)) c \<and>
        Sprintf (call_format c) (call_args c) = Some ''[150.000ms] [rows:-] SELECT 1'') \<and>
   (\<exists>c. emits example_world
          (snd (Trace example_rt_fast example_logger 7 0
                 example_fc_rows (Some (ErrorString ''syntax error''))
                 example_world)) c \<and>
        Sprintf (call_format c) (call_args c) = Some ''[1.235ms] [rows:3] DELETE'')"
proof -
  have h: "log example_logger = Some (Instance 0)"
    by (simp add: example_logger_def)
  obtain c n where c: "emits example_world
        (snd (Trace example_rt example_logger 7 0 example_fc None example_world)) c"
    and "\<bar>sint (time_Since example_rt 0)\<bar> < 2 ^ 51 \<longrightarrow>
      \<bar>1000 * int n - \<bar>sint (time_Since example_rt 0)\<bar>\<bar> \<le> 500"
    and m: "Sprintf (call_format c) (call_args c) =
      Some (message_body (sint (time_Since example_rt 0) < 0) n
        (snd (fst (example_fc (caller example_world))))
        (fst (fst (example_fc (caller example_world)))))"
    using Trace_message_body [OF h, of example_world example_rt 7 0 example_fc None] by blast
  then have "\<bar>1000 * int n - 150000000\<bar> \<le> 500"
    by (simp add: example_rt_def)
  then have "n = 150000"
    by arith
  with m have "Sprintf (call_format c) (call_args c) = Some ''[150.000ms] [rows:-] SELECT 1''"
    by (simp add: example_rt_def example_fc_def message_body_def rows_text_def
        thousandths_150000)
  with c have first: "\<exists>c. emits example_world
          (snd (Trace example_rt example_logger 7 0 example_fc None example_world)) c \<and>
        Sprintf (call_format c) (call_args c) = Some ''[150.000ms] [rows:-] SELECT 1''"
    by blast
  obtain c' n' where c': "emits example_world
        (snd (Trace example_rt_fast example_logger 7 0
               example_fc_rows (Some (ErrorString ''syntax error''))
               example_world)) c'"
    and "\<bar>sint (time_Since example_rt_fast 0)\<bar> < 2 ^ 51 \<longrightarrow>
      \<bar>1000 * int n' - \<bar>sint (time_Since example_rt_fast 0)\<bar>\<bar> \<le> 500"
    and m': "Sprintf (call_format c') (call_args c') =
      Some (message_body (sint (time_Since example_rt_fast 0) < 0) n'
        (snd (fst (example_fc_rows (caller example_world))))
        (fst (fst (example_fc_rows (caller example_world)))))"
    using Trace_message_body [OF h, of example_world example_rt_fast
        7 0 example_fc_rows "Some (ErrorString ''syntax error'')"]
    by blast
  then have "\<bar>1000 * int n' - 1234567\<bar> \<le> 500"
    by (simp add: example_rt_fast_def)
  then have "n' = 1235"
    by arith
  with m' have "Sprintf (call_format c') (call_args c') = Some ''[1.235ms] [rows:3] DELETE''"
    by (simp add: example_rt_fast_def example_fc_rows_def message_body_def rows_text_def
        thousandths_1235 FormatInt_def digits_eval)
  with c' first h show ?thesis
    by blast
qed

subsection \<open>\<open>Info\<close>, \<open>Warn\<close> and \<open>Error\<close>\<close>

lemma logf_Some:
  "logf (Some s) ctx fds lvl fmt args w =
    (None,
     w\<lparr>journal := journal w @
       [\<lparr>call_logger = s, call_level = lvl, call_context = ctx, call_fields = fds,
         call_format = fmt, call_args = args\<rparr>]\<rparr>)"
  by (simp add: logf_def)

text \<open>
  C6. On an adapter with a sink, \<open>Info\<close>, \<open>Warn\<close> and \<open>Error\<close> each make exactly one
  call on the sink, at the info, warning and error level, with the caller's context,
  format and arguments and no fields; and whatever the adapter's configuration is, its
  level included, they do the same.
\<close>

theorem Info_Warn_Error_forward:
  assumes "log l = Some s"
  shows "Info l ctx msg data w =
      (None,
       w\<lparr>journal := journal w @
         [\<lparr>call_logger = s, call_level = InfoLevel, call_context = ctx,
           call_fields = Map.empty, call_format = msg, call_args = data\<rparr>]\<rparr>) \<and>
    Warn l ctx msg data w =
      (None,
       w\<lparr>journal := journal w @
         [\<lparr>call_logger = s, call_level = WarnLevel, call_context = ctx,
           call_fields = Map.empty, call_format = msg, call_args = data\<rparr>]\<rparr>) \<and>
    Error l ctx msg data w =
      (None,
       w\<lparr>journal := journal w @
         [\<lparr>call_logger = s, call_level = ErrorLevel, call_context = ctx,
           call_fields = Map.empty, call_format = msg, call_args = data\<rparr>]\<rparr>) \<and>
    Info (l\<lparr>cfg := c\<rparr>) ctx msg data w = Info l ctx msg data w \<and>
    Warn (l\<lparr>cfg := c\<rparr>) ctx msg data w = Warn l ctx msg data w \<and>
    Error (l\<lparr>cfg := c\<rparr>) ctx msg data w = Error l ctx msg data w"
  using assms by (simp add: Info_def Warn_def Error_def logf_Some)

text \<open>The example adapter forwards at every level, also when its own level is Silent (1).\<close>

theorem Info_Warn_Error_forward_witness:
  "log example_logger = Some (Instance 0) \<and>
   journal (snd (Info (example_logger\<lparr>cfg := example_cfg\<lparr>LogLevel := 1\<rparr>\<rparr>) 7 ''connected to %s''
       [VString ''db''] example_world)) =
     [\<lparr>call_logger = Instance 0, call_level = InfoLevel, call_context = 7,
       call_fields = Map.empty, call_format = ''connected to %s'',
       call_args = [VString ''db'']\<rparr>] \<and>
   journal (snd (Warn example_logger 7 ''retry %v'' [VInt64 2] example_world)) =
     [\<lparr>call_logger = Instance 0, call_level = WarnLevel, call_context = 7,
       call_fields = Map.empty, call_format = ''retry %v'', call_args = [VInt64 2]\<rparr>] \<and>
   journal (snd (Error example_logger 7 ''failed'' [] example_world)) =
     [\<lparr>call_logger = Instance 0, call_level = ErrorLevel, call_context = 7,
       call_fields = Map.empty, call_format = ''failed'', call_args = []\<rparr>]"
proof -
  have h: "log example_logger = Some (Instance 0)"
    by (simp add: example_logger_def)
  show ?thesis
    using h
      Info_Warn_Error_forward [OF h, where ctx = 7 and msg = "''connected to %s''"
        and data = "[VString ''db'']" and w = example_world
        and c = "example_cfg\<lparr>LogLevel := 1\<rparr>"]
      Info_Warn_Error_forward [OF h, where ctx = 7 and msg = "''retry %v''"
        and data = "[VInt64 2]" and w = example_world]
      Info_Warn_Error_forward [OF h, where ctx = 7 and msg = "''failed''"
        and data = "[]" and w = example_world]
    by (simp add: example_world_def)
qed

subsection \<open>\<open>LogMode\<close>\<close>

lemma LogMode_valid:
  assumes "l < length (loggers w)"
  shows "LogMode l level w =
    (Inr (length (loggers w)),
     w\<lparr>loggers := loggers w @
       [(loggers w ! l)\<lparr>cfg := (cfg (loggers w ! l))\<lparr>LogLevel := level\<rparr>\<rparr>]\<rparr>)"
  using assms by (simp add: LogMode_def alloc_def Let_def)

text \<open>
  C3. \<open>LogMode\<close> with level \<open>L\<close> on an adapter returns a new adapter whose level is
  \<open>L\<close> and whose other configuration fields are the receiver's; the receiver, like every
  adapter there was, is unchanged, and writing to the returned adapter afterwards leaves the
  receiver as it was. No call reaches a sink, and the caller's state is untouched.
\<close>

theorem LogMode_copies_with_level:
  assumes "l < length (loggers w)"
    and "LogMode l level w = (r, w')"
  shows "\<exists>l'. r = Inr l' \<and> l' \<noteq> l \<and> l' < length (loggers w') \<and>
    LogLevel (cfg (loggers w' ! l')) = level \<and>
    SlowThreshold (cfg (loggers w' ! l')) = SlowThreshold (cfg (loggers w ! l)) \<and>
    IgnoreRecordNotFoundError (cfg (loggers w' ! l')) =
      IgnoreRecordNotFoundError (cfg (loggers w ! l)) \<and>
    cfg (loggers w' ! l') = (cfg (loggers w ! l))\<lparr>LogLevel := level\<rparr> \<and>
    loggers w' ! l = loggers w ! l \<and>
    take (length (loggers w)) (loggers w') = loggers w \<and>
    (\<forall>x. (loggers w')[l' := x] ! l = loggers w ! l) \<and>
    journal w' = journal w \<and> caller w' = caller w"
proof -
  have r: "r = Inr (length (loggers w))"
    and w': "w' = w\<lparr>loggers := loggers w @
       [(loggers w ! l)\<lparr>cfg := (cfg (loggers w ! l))\<lparr>LogLevel := level\<rparr>\<rparr>]\<rparr>"
    using assms(2) by (simp_all add: LogMode_valid [OF assms(1)])
  show ?thesis
    using assms(1) by (simp add: r w' nth_append)
qed

text \<open>The example adapter, at level 4, and its copy at level 1.\<close>

theorem LogMode_copies_with_level_witness:
  "0 < length (loggers example_world) \<and>
   LogMode 0 1 example_world =
     (Inr 1,
      \<lparr>loggers = [example_logger, example_logger\<lparr>cfg := example_cfg\<lparr>LogLevel := 1\<rparr>\<rparr>],
       journal = [], caller = 0\<rparr>) \<and>
   LogLevel (cfg (loggers (snd (LogMode 0 1 example_world)) ! 1)) = 1 \<and>
   SlowThreshold (cfg (loggers (snd (LogMode 0 1 example_world)) ! 1)) = 100000000 \<and>
   IgnoreRecordNotFoundError (cfg (loggers (snd (LogMode 0 1 example_world)) ! 1)) \<and>
   loggers (snd (LogMode 0 1 example_world)) ! 0 = example_logger \<and>
   LogLevel (cfg (loggers (snd (LogMode 0 1 example_world)) ! 0)) = 4"
proof -
  have h1: "0 < length (loggers example_world)"
    by (simp add: example_world_def)
  have h2: "LogMode 0 1 example_world =
     (Inr 1,
      \<lparr>loggers = [example_logger, example_logger\<lparr>cfg := example_cfg\<lparr>LogLevel := 1\<rparr>\<rparr>],
       journal = [], caller = 0\<rparr>)"
    by (simp add: LogMode_def alloc_def example_world_def example_logger_def)
  show ?thesis
    using h1 h2 LogMode_copies_with_level [OF h1 h2]
    by (simp add: example_world_def example_logger_def example_cfg_def)
qed

text \<open>
  C8. The adapter \<open>LogMode\<close> returns has the receiver's sink pointer, so \<open>Info\<close>,
  \<open>Warn\<close>, \<open>Error\<close> and \<open>Trace\<close> on it do what they do on the receiver: the same
  calls on the same sink.
\<close>

theorem LogMode_shares_sink:
  fixes w :: "'s world"
  assumes "l < length (loggers w)"
    and "LogMode l level w = (r, w')"
  shows "\<exists>l'. r = Inr l' \<and>
    log (loggers w' ! l') = log (loggers w ! l) \<and>
    log (loggers w' ! l') = log (loggers w' ! l) \<and>
    (\<forall>ctx msg data (u :: 's world).
       Info (loggers w' ! l') ctx msg data u = Info (loggers w' ! l) ctx msg data u) \<and>
    (\<forall>ctx msg data (u :: 's world).
       Warn (loggers w' ! l') ctx msg data u = Warn (loggers w' ! l) ctx msg data u) \<and>
    (\<forall>ctx msg data (u :: 's world).
       Error (loggers w' ! l') ctx msg data u = Error (loggers w' ! l) ctx msg data u) \<and>
    (\<forall>rt ctx t fc err (u :: 's world).
       Trace rt (loggers w' ! l') ctx t fc err u = Trace rt (loggers w' ! l) ctx t fc err u)"
proof -
  have r: "r = Inr (length (loggers w))"
    and w': "w' = w\<lparr>loggers := loggers w @
       [(loggers w ! l)\<lparr>cfg := (cfg (loggers w ! l))\<lparr>LogLevel := level\<rparr>\<rparr>]\<rparr>"
    using assms(2) by (simp_all add: LogMode_valid [OF assms(1)])
  show ?thesis
    using assms(1)
    by (simp add: r w' nth_append Info_def Warn_def Error_def Trace_ignores_LogLevel)
qed

text \<open>The example adapter and its copy.\<close>

theorem LogMode_shares_sink_witness:
  "0 < length (loggers example_world) \<and>
   LogMode 0 1 example_world =
     (Inr 1,
      \<lparr>loggers = [example_logger, example_logger\<lparr>cfg := example_cfg\<lparr>LogLevel := 1\<rparr>\<rparr>],
       journal = [], caller = 0\<rparr>) \<and>
   log (example_logger\<lparr>cfg := example_cfg\<lparr>LogLevel := 1\<rparr>\<rparr>) = Some (Instance 0) \<and>
   Info (example_logger\<lparr>cfg := example_cfg\<lparr>LogLevel := 1\<rparr>\<rparr>) 7 ''ping'' [] example_world =
     Info example_logger 7 ''ping'' [] example_world \<and>
   Trace example_rt (example_logger\<lparr>cfg := example_cfg\<lparr>LogLevel := 1\<rparr>\<rparr>) 7 0 example_fc None
       example_world =
     Trace example_rt example_logger 7 0 example_fc None example_world"
proof -
  have h1: "0 < length (loggers example_world)"
    by (simp add: example_world_def)
  have h2: "LogMode 0 1 example_world =
     (Inr 1,
      \<lparr>loggers = [example_logger, example_logger\<lparr>cfg := example_cfg\<lparr>LogLevel := 1\<rparr>\<rparr>],
       journal = [], caller = 0\<rparr>)"
    by (simp add: LogMode_def alloc_def example_world_def example_logger_def)
  from LogMode_shares_sink [OF h1 h2]
  have "log (example_logger\<lparr>cfg := example_cfg\<lparr>LogLevel := 1\<rparr>\<rparr>) = log example_logger"
    and "\<forall>ctx msg data u.
      Info (example_logger\<lparr>cfg := example_cfg\<lparr>LogLevel := 1\<rparr>\<rparr>) ctx msg data (u :: nat world) =
      Info example_logger ctx msg data u"
    and "\<forall>rt ctx t fc err u.
      Trace rt (example_logger\<lparr>cfg := example_cfg\<lparr>LogLevel := 1\<rparr>\<rparr>) ctx t fc err (u :: nat world) =
      Trace rt example_logger ctx t fc err u"
    by (simp_all add: example_world_def)
  then show ?thesis
    using h1 h2 by (simp add: example_logger_def)
qed

subsection \<open>\<open>New\<close>\<close>

lemma range_opts_foldl: "range_opts opts opt = foldl (\<lambda>opt f. f opt) opt opts"
  by (induction opts arbitrary: opt) simp_all

lemma range_opts_append: "range_opts (xs @ ys) opt = range_opts ys (range_opts xs opt)"
  by (induction xs arbitrary: opt) simp_all

lemma built_New:
  "built (New opts w) =
    \<lparr>log = (case options.log (range_opts opts zero_options) of
              None \<Rightarrow> StandardLogger
            | Some s \<Rightarrow> Some s),
     cfg = options.cfg (range_opts opts zero_options)\<rparr>"
  by (simp add: built_def New_def alloc_def Let_def split: option.splits)

text \<open>
  C7. \<open>New\<close> runs its options from left to right on the zero options, so that the last
  \<open>WithConfig\<close> and the last \<open>WithLogger\<close> are the ones that count, and builds the adapter
  from the result; when the logger left by the options is nil, the adapter's sink is the
  standard logger.
\<close>

theorem New_applies_options_in_order:
  "New opts w =
     alloc \<lparr>log = (case options.log (foldl (\<lambda>opt f. f opt) zero_options opts) of
                     None \<Rightarrow> StandardLogger
                   | Some s \<Rightarrow> Some s),
            cfg = options.cfg (foldl (\<lambda>opt f. f opt) zero_options opts)\<rparr> w \<and>
   (options.log (foldl (\<lambda>opt f. f opt) zero_options opts) = None \<longrightarrow>
      log (built (New opts w)) = StandardLogger) \<and>
   cfg (built (New (opts @ [WithConfig c]) w)) = c \<and>
   log (built (New (opts @ [WithLogger (Some s)]) w)) = Some s \<and>
   New (opts @ [WithConfig c, WithConfig d]) w = New (opts @ [WithConfig d]) w \<and>
   New (opts @ [WithLogger p, WithLogger q]) w = New (opts @ [WithLogger q]) w"
proof -
  have "New opts w =
     alloc \<lparr>log = (case options.log (foldl (\<lambda>opt f. f opt) zero_options opts) of
                     None \<Rightarrow> StandardLogger
                   | Some s \<Rightarrow> Some s),
            cfg = options.cfg (foldl (\<lambda>opt f. f opt) zero_options opts)\<rparr> w"
    by (simp add: New_def Let_def range_opts_foldl split: option.splits)
  moreover have "options.log (foldl (\<lambda>opt f. f opt) zero_options opts) = None \<longrightarrow>
      log (built (New opts w)) = StandardLogger"
    by (simp add: built_New range_opts_foldl)
  moreover have "cfg (built (New (opts @ [WithConfig c]) w)) = c"
    and "log (built (New (opts @ [WithLogger (Some s)]) w)) = Some s"
    by (simp_all add: built_New range_opts_append WithConfig_def WithLogger_def)
  moreover have "New (opts @ [WithConfig c, WithConfig d]) w = New (opts @ [WithConfig d]) w"
    and "New (opts @ [WithLogger p, WithLogger q]) w = New (opts @ [WithLogger q]) w"
    by (simp_all add: New_def range_opts_append WithConfig_def WithLogger_def)
  ultimately show ?thesis
    by blast
qed

text \<open>Three options in a row, and no option at all.\<close>

theorem New_applies_options_in_order_witness:
  "built (New [WithConfig example_cfg, WithLogger (Some (Instance 3)),
       WithConfig (example_cfg\<lparr>LogLevel := 2\<rparr>)] example_world) =
     \<lparr>log = Some (Instance 3), cfg = example_cfg\<lparr>LogLevel := 2\<rparr>\<rparr> \<and>
   built (New [] example_world) = \<lparr>log = Some Std, cfg = zero_Config\<rparr> \<and>
   fst (New [] example_world) = 1"
  using New_applies_options_in_order [where w = example_world
      and opts = "[WithConfig example_cfg, WithLogger (Some (Instance 3)),
        WithConfig (example_cfg\<lparr>LogLevel := 2\<rparr>)]"]
    New_applies_options_in_order [where w = example_world and opts = "[]"]
  by (simp add: built_def alloc_def WithConfig_def WithLogger_def zero_options_def
      StandardLogger_def example_world_def)

text \<open>
  C9. Whatever the options, the adapter \<open>New\<close> returns has a sink: the nil check comes
  after the options have run, so \<open>New(WithLogger(nil))\<close> has the standard logger too.
  No operation on that adapter panics on a nil sink.
\<close>

theorem New_sink_never_nil:
  "log (built (New opts w)) \<noteq> None \<and>
   log (built (New [WithLogger None] w)) = StandardLogger \<and>
   log (built (New (opts @ [WithLogger None]) w)) = StandardLogger \<and>
   fst (Info (built (New opts w)) ctx msg data u) = None \<and>
   fst (Warn (built (New opts w)) ctx msg data u) = None \<and>
   fst (Error (built (New opts w)) ctx msg data u) = None \<and>
   fst (Trace rt (built (New opts w)) ctx t fc err u) = None \<and>
   fst (LogMode (fst (New opts w)) level (snd (New opts w))) =
     Inr (Suc (fst (New opts w)))"
proof -
  obtain s where s: "log (built (New opts w)) = Some s"
    by (cases "options.log (range_opts opts zero_options)")
      (simp_all add: built_New StandardLogger_def)
  have "log (built (New [WithLogger None] w)) = StandardLogger"
    and "log (built (New (opts @ [WithLogger None]) w)) = StandardLogger"
    by (simp_all add: built_New range_opts_append WithLogger_def zero_options_def)
  moreover have "fst (Info (built (New opts w)) ctx msg data u) = None"
    and "fst (Warn (built (New opts w)) ctx msg data u) = None"
    and "fst (Error (built (New opts w)) ctx msg data u) = None"
    by (simp_all add: Info_def Warn_def Error_def s logf_Some)
  moreover have "fst (Trace rt (built (New opts w)) ctx t fc err u) = None"
    by (simp add: Trace_call [OF s])
  moreover have "fst (LogMode (fst (New opts w)) level (snd (New opts w))) =
     Inr (Suc (fst (New opts w)))"
    by (simp add: New_def alloc_def Let_def LogMode_def)
  ultimately show ?thesis
    using s by simp
qed

text \<open>\<open>New(WithLogger(nil))\<close> in the example world.\<close>

theorem New_sink_never_nil_witness:
  "log (built (New [WithLogger None] example_world)) = Some Std \<and>
   fst (Info (built (New [WithLogger None] example_world)) 7 ''ping'' [] example_world) = None \<and>
   fst (Trace example_rt (built (New [WithLogger None] example_world)) 7 0 example_fc None
     example_world) = None"
  using New_sink_never_nil [where opts = "[WithLogger None]" and w = example_world
      and ctx = 7 and msg = "''ping''" and data = "[]" and u = example_world
      and rt = example_rt and t = 0 and fc = example_fc and err = None]
  by (simp add: StandardLogger_def)

end
